theory Spec2Isabelle
  imports Main
begin

section \<open>JavaScript values\<close>

text \<open>
  The values a property can hold: the primitive values, and objects. A number is
  integer-valued (JSON data has no NaN), a string is a sequence of code units below
  256. An object (a function, an array, a plain object) is given by what the validators
  read of it: the string its conversion yields, and its \<^verbatim>\<open>length\<close> when that is a number
  (\<open>None\<close>: it has no such property).
\<close>

datatype jsval = Undefined | Null | Bool bool | Num int | Str string | Obj string "int option"

text \<open>The truthiness test behind \<^verbatim>\<open>!x\<close> and \<^verbatim>\<open>if (x)\<close>.\<close>

fun truthy :: "jsval \<Rightarrow> bool" where
  "truthy Undefined = False"
| "truthy Null = False"
| "truthy (Bool b) = b"
| "truthy (Num n) = (n \<noteq> 0)"
| "truthy (Str s) = (s \<noteq> [])"
| "truthy (Obj s l) = True"

definition digit :: "nat \<Rightarrow> char" where
  "digit d = ''0123456789'' ! d"

fun show_nat :: "nat \<Rightarrow> string" where
  "show_nat n = (if n < 10 then [digit n] else show_nat (n div 10) @ [digit (n mod 10)])"

declare show_nat.simps [simp del]

text \<open>
  The string conversion \<^verbatim>\<open>RegExp.prototype.test\<close> and \<^verbatim>\<open>Date.parse\<close> apply to
  their argument. The decimal rendering of a number is the one JavaScript prints for an
  integer of magnitude below \<open>10^21\<close>.
\<close>

fun ToString :: "jsval \<Rightarrow> string" where
  "ToString Undefined = ''undefined''"
| "ToString Null = ''null''"
| "ToString (Bool b) = (if b then ''true'' else ''false'')"
| "ToString (Num n) = (if n < 0 then CHR ''-'' # show_nat (nat (- n)) else show_nat (nat n))"
| "ToString (Str s) = s"
| "ToString (Obj s l) = s"

section \<open>Regular expressions\<close>

text \<open>
  A character class is a list of the characters it holds (\<open>Among\<close>), or of the
  characters it excludes (\<open>Except\<close>, a negated class).
\<close>

datatype cset = Among "char list" | Except "char list"

fun in_cset :: "cset \<Rightarrow> char \<Rightarrow> bool" where
  "in_cset (Among cs) c = (c \<in> set cs)"
| "in_cset (Except cs) c = (c \<notin> set cs)"

text \<open>
  The body of a regular expression literal: the pattern without its anchors. None of
  the literals of the validators has a back-reference, a look-ahead or a flag.
\<close>

datatype rx = Never | Empty | Class cset | Or rx rx | Then rx rx | Many rx

definition Some1 :: "rx \<Rightarrow> rx" where
  \<comment> \<open>\<^verbatim>\<open>r+\<close>\<close>
  "Some1 r = Then r (Many r)"

definition Maybe :: "rx \<Rightarrow> rx" where
  \<comment> \<open>\<^verbatim>\<open>r?\<close>\<close>
  "Maybe r = Or r Empty"

definition Lit :: "string \<Rightarrow> rx" where
  \<comment> \<open>a sequence of literal characters\<close>
  "Lit s = foldr (\<lambda>c r. Then (Class (Among [c])) r) s Empty"

fun nullable :: "rx \<Rightarrow> bool" where
  "nullable Never = False"
| "nullable Empty = True"
| "nullable (Class _) = False"
| "nullable (Or r s) = (nullable r \<or> nullable s)"
| "nullable (Then r s) = (nullable r \<and> nullable s)"
| "nullable (Many r) = True"

fun alt :: "rx \<Rightarrow> rx \<Rightarrow> rx" where
  "alt Never s = s"
| "alt r Never = r"
| "alt r s = Or r s"

fun seq :: "rx \<Rightarrow> rx \<Rightarrow> rx" where
  "seq Never s = Never"
| "seq r Never = Never"
| "seq Empty s = s"
| "seq r s = Then r s"

text \<open>What is left of \<open>r\<close> to match once the character \<open>c\<close> has been read.\<close>

fun after :: "char \<Rightarrow> rx \<Rightarrow> rx" where
  "after c Never = Never"
| "after c Empty = Never"
| "after c (Class cs) = (if in_cset cs c then Empty else Never)"
| "after c (Or r s) = alt (after c r) (after c s)"
| "after c (Then r s) =
     (if nullable r then alt (seq (after c r) s) (after c s) else seq (after c r) s)"
| "after c (Many r) = seq (after c r) (Many r)"

text \<open>
  \<open>match_here r to_end s\<close>: the pattern matches at the start of \<open>s\<close>; the match ends
  at the end of \<open>s\<close> when the literal ends in \<^verbatim>\<open>$\<close> (\<open>to_end\<close>), anywhere otherwise.
\<close>

fun match_here :: "rx \<Rightarrow> bool \<Rightarrow> string \<Rightarrow> bool" where
  "match_here r to_end [] = nullable r"
| "match_here r to_end (c # cs) =
     ((\<not> to_end \<and> nullable r) \<or> match_here (after c r) to_end cs)"

text \<open>The pattern matches at some position of \<open>s\<close>, tried from left to right.\<close>

fun match_anywhere :: "rx \<Rightarrow> bool \<Rightarrow> string \<Rightarrow> bool" where
  "match_anywhere r to_end [] = match_here r to_end []"
| "match_anywhere r to_end (c # cs) =
     (match_here r to_end (c # cs) \<or> match_anywhere r to_end cs)"

record regex =
  from_start :: bool   \<comment> \<open>the literal starts with \<^verbatim>\<open>^\<close>\<close>
  body :: rx
  to_end :: bool       \<comment> \<open>the literal ends in \<^verbatim>\<open>$\<close>\<close>

text \<open>\<^verbatim>\<open>regex.test(input)\<close> on the string of the input.\<close>

definition test :: "regex \<Rightarrow> string \<Rightarrow> bool" where
  "test re s =
     (if from_start re then match_here (body re) (to_end re) s
      else match_anywhere (body re) (to_end re) s)"

section \<open>The validators\<close>

text \<open>
  What a validator can throw. \<^verbatim>\<open>ValidationError(type)\<close> builds an \<^verbatim>\<open>Error\<close> whose message
  is \<open>type\<close>; the engine itself throws a \<^verbatim>\<open>TypeError\<close> when a property of
  \<^verbatim>\<open>undefined\<close> or \<^verbatim>\<open>null\<close> is read. The validators of the file throw nothing else, but a
  field can hold any function, and \<^verbatim>\<open>throw\<close> takes any value: \<open>Thrown v\<close> is a thrown
  value that is no \<^verbatim>\<open>Error\<close>, a primitive \<open>v\<close> or an object without a \<^verbatim>\<open>message\<close>.
\<close>

datatype exn = ValidationError string | TypeError string | Thrown jsval

text \<open>The message of an \<^verbatim>\<open>Error\<close>; a thrown value that is no \<^verbatim>\<open>Error\<close> has none.\<close>

fun message :: "exn \<Rightarrow> string" where
  "message (ValidationError type) = type"
| "message (TypeError text) = text"
| "message (Thrown v) = []"

text \<open>
  \<^verbatim>\<open>e.message\<close>, as the handler of the loop reads it: the message of an \<^verbatim>\<open>Error\<close>,
  \<^verbatim>\<open>undefined\<close> for a value without that property, and for \<^verbatim>\<open>undefined\<close> and \<^verbatim>\<open>null\<close> the
  read itself throws the engine's \<^verbatim>\<open>TypeError\<close>, which nothing catches.
\<close>

datatype propagated = Cannot_read_message exn

fun handler_message :: "exn \<Rightarrow> propagated + jsval" where
  "handler_message (ValidationError type) = Inr (Str type)"
| "handler_message (TypeError text) = Inr (Str text)"
| "handler_message (Thrown Undefined) = Inl (Cannot_read_message (Thrown Undefined))"
| "handler_message (Thrown Null) = Inl (Cannot_read_message (Thrown Null))"
| "handler_message (Thrown v) = Inr Undefined"

text \<open>
  The two things the validators take from the JavaScript engine and the source does
  not fix: the time value \<^verbatim>\<open>Date.parse\<close> gives a string (\<open>None\<close> is NaN), and the
  message of the \<^verbatim>\<open>TypeError\<close> for reading \<^verbatim>\<open>length\<close> off \<^verbatim>\<open>undefined\<close> or \<^verbatim>\<open>null\<close>.
\<close>

record engine =
  date_parse :: "string \<Rightarrow> int option"
  type_error_message :: "jsval \<Rightarrow> string"

text \<open>A validator returns (\<open>None\<close>) or throws (\<open>Some e\<close>).\<close>

type_synonym validator = "jsval \<Rightarrow> exn option"

definition RegEx :: "regex \<Rightarrow> validator" where
  "RegEx re input =
     (if \<not> test re (ToString input) then Some (ValidationError ''regexp'') else None)"

definition ISODate :: "engine \<Rightarrow> validator" where
  "ISODate E input =
     (case date_parse E (ToString input) of
        None \<Rightarrow> Some (ValidationError ''isodate'')
      | Some parsed \<Rightarrow> None)"

definition lower :: "char list" where
  "lower = ''abcdefghijklmnopqrstuvwxyz''"

definition digits :: "char list" where
  "digits = ''0123456789''"

definition whitespace :: "char list" where
  \<comment> \<open>\<^verbatim>\<open>\s\<close>: tab, line feed, vertical tab, form feed, carriage return, space, no-break space\<close>
  "whitespace = [CHR 0x09, CHR 0x0A, CHR 0x0B, CHR 0x0C, CHR 0x0D, CHR 0x20, CHR 0xA0]"

definition line_terminators :: "char list" where
  \<comment> \<open>the characters \<^verbatim>\<open>.\<close> does not match\<close>
  "line_terminators = [CHR 0x0A, CHR 0x0D]"

definition Chr :: "char \<Rightarrow> rx" where
  "Chr c = Class (Among [c])"

definition Seq :: "rx list \<Rightarrow> rx" where
  "Seq rs = foldr Then rs Empty"

definition atext :: rx where
  \<comment> \<open>\<^verbatim>\<open>[a-z0-9!#$%&'*+/=?^_`{|}~-]\<close>\<close>
  "atext = Class (Among (lower @ digits @ ''!#$%&'' @ [CHR 0x27] @ ''*+/=?^_'' @ [CHR 0x60]
                          @ ''{|}~-''))"

definition alnum :: rx where
  \<comment> \<open>\<^verbatim>\<open>[a-z0-9]\<close>\<close>
  "alnum = Class (Among (lower @ digits))"

definition alnum_hyphen :: rx where
  \<comment> \<open>\<^verbatim>\<open>[a-z0-9-]\<close>\<close>
  "alnum_hyphen = Class (Among (lower @ digits @ ''-''))"

definition label :: rx where
  \<comment> \<open>\<^verbatim>\<open>[a-z0-9](?:[a-z0-9-]*[a-z0-9])?\<close>\<close>
  "label = Then alnum (Maybe (Then (Many alnum_hyphen) alnum))"

definition email_regex :: regex where
  "email_regex =
     \<lparr>from_start = False,
      body = Seq [Some1 atext, Many (Then (Chr CHR ''.'') (Some1 atext)), Chr CHR ''@'',
                  Some1 (Then label (Chr CHR ''.'')), label],
      to_end = False\<rparr>"

definition Email :: validator where
  "Email = RegEx email_regex"

definition MaxLength :: "engine \<Rightarrow> int \<Rightarrow> validator" where
  "MaxLength E len input =
     (case input of
        Undefined \<Rightarrow> Some (TypeError (type_error_message E input))
      | Null \<Rightarrow> Some (TypeError (type_error_message E input))
      | Str s \<Rightarrow> if int (length s) > len then Some (ValidationError ''length'') else None
      | Obj s None \<Rightarrow> None
      | Obj s (Some l) \<Rightarrow> if l > len then Some (ValidationError ''length'') else None
      | _ \<Rightarrow> None)"

definition fq_url :: regex where
  \<comment> \<open>\<^verbatim>\<open>/^(https?):\/\/[^\s\/$.?#].[^\s]*$/\<close>\<close>
  "fq_url =
     \<lparr>from_start = True,
      body = Seq [Lit ''http'', Maybe (Chr CHR ''s''), Lit ''://'',
                  Class (Except (whitespace @ ''/$.?#'')), Class (Except line_terminators),
                  Many (Class (Except whitespace))],
      to_end = True\<rparr>"

definition local_url :: regex where
  \<comment> \<open>\<^verbatim>\<open>/^\/\S+$/\<close>\<close>
  "local_url =
     \<lparr>from_start = True,
      body = Then (Chr CHR ''/'') (Some1 (Class (Except whitespace))),
      to_end = True\<rparr>"

definition URL :: validator where
  "URL input =
     (case RegEx fq_url input of
        None \<Rightarrow> None
      | Some e \<Rightarrow> RegEx local_url input)"

section \<open>Fields and models\<close>

record field_descriptor =
  required :: bool
  validators :: "validator list"

definition field :: "bool \<Rightarrow> validator list \<Rightarrow> field_descriptor" where
  "field req vs = \<lparr>required = req, validators = vs\<rparr>"

definition required_field :: "validator list \<Rightarrow> field_descriptor" where
  \<comment> \<open>\<^verbatim>\<open>required(...)\<close>\<close>
  "required_field vs = field True vs"

definition optional_field :: "validator list \<Rightarrow> field_descriptor" where
  \<comment> \<open>\<^verbatim>\<open>optional(...)\<close>\<close>
  "optional_field vs = field False vs"

text \<open>
  A plain object is the map of its own properties; what it inherits comes from
  \<^verbatim>\<open>Object.prototype\<close>, whose properties are those of ECMAScript and its Annex B, each
  with the string and the \<^verbatim>\<open>length\<close> V8 gives it. The last one is the accessor
  \<^verbatim>\<open>__proto__\<close>, which reads as \<^verbatim>\<open>Object.prototype\<close> itself.
\<close>

type_synonym object = "string \<rightharpoonup> jsval"

definition Object_prototype :: object where
  "Object_prototype = map_of
     [(''constructor'', Obj ''function Object() { [native code] }'' (Some 1)),
      (''toString'', Obj ''function toString() { [native code] }'' (Some 0)),
      (''toLocaleString'', Obj ''function toLocaleString() { [native code] }'' (Some 0)),
      (''valueOf'', Obj ''function valueOf() { [native code] }'' (Some 0)),
      (''hasOwnProperty'', Obj ''function hasOwnProperty() { [native code] }'' (Some 1)),
      (''isPrototypeOf'', Obj ''function isPrototypeOf() { [native code] }'' (Some 1)),
      (''propertyIsEnumerable'',
         Obj ''function propertyIsEnumerable() { [native code] }'' (Some 1)),
      (''__defineGetter__'', Obj ''function __defineGetter__() { [native code] }'' (Some 2)),
      (''__defineSetter__'', Obj ''function __defineSetter__() { [native code] }'' (Some 2)),
      (''__lookupGetter__'', Obj ''function __lookupGetter__() { [native code] }'' (Some 1)),
      (''__lookupSetter__'', Obj ''function __lookupSetter__() { [native code] }'' (Some 1)),
      (''__proto__'', Obj ''[object Object]'' None)]"

text \<open>
  \<^verbatim>\<open>o[k]\<close> on a plain object: the own property, or else the inherited one, or else
  \<^verbatim>\<open>undefined\<close>. This is \<^verbatim>\<open>provided[k]\<close>, and \<^verbatim>\<open>err[k]\<close> in the last test of the loop.
\<close>

definition property :: "object \<Rightarrow> string \<Rightarrow> jsval" where
  "property provided k =
     (case provided k of
        Some v \<Rightarrow> v
      | None \<Rightarrow> (case Object_prototype k of Some v \<Rightarrow> v | None \<Rightarrow> Undefined))"

text \<open>
  \<^verbatim>\<open>o[k] = x\<close> on an object without an own \<^verbatim>\<open>__proto__\<close>, for a string or \<^verbatim>\<open>undefined\<close>
  \<open>x\<close>: it makes \<open>k\<close> an own property, but for \<^verbatim>\<open>__proto__\<close>, where the inherited setter
  takes the value and, as it is no object, does nothing.
\<close>

definition assign :: "object \<Rightarrow> string \<Rightarrow> jsval \<Rightarrow> object" where
  "assign obj k x = (if k = ''__proto__'' then obj else obj(k \<mapsto> x))"

text \<open>
  A model instance: the field table of its prototype, as the list of its entries in
  the order \<^verbatim>\<open>Object.keys\<close> enumerates them (\<open>fields'\<close>, the source's \<^verbatim>\<open>fields\<close>), and the
  record it was built with. The keys of an object are distinct; the theorems that need
  it say so.
\<close>

record model =
  fields' :: "(string \<times> field_descriptor) list"
  data :: object

text \<open>
  The constructor, \<^verbatim>\<open>this.data = data || {}\<close>, for a record that is a plain object:
  \<open>None\<close> is a call with no argument, with \<^verbatim>\<open>undefined\<close>, \<^verbatim>\<open>null\<close> or another falsy value.
\<close>

definition new_model :: "(string \<times> field_descriptor) list \<Rightarrow> object option \<Rightarrow> model" where
  "new_model fs d = \<lparr>fields' = fs, data = (case d of None \<Rightarrow> Map.empty | Some r \<Rightarrow> r)\<rparr>"

text \<open>
  An entry of the returned list is the object \<^verbatim>\<open>err\<close> of one field: \<^verbatim>\<open>{}\<close>, or the
  field mapped to the kind of its error. The evaluation also keeps a log of the
  validator calls it makes: the field, the position of the validator in the field's
  list, and the argument.
\<close>

type_synonym entry = object

type_synonym call = "string \<times> nat \<times> jsval"

record progress =
  pushed :: "entry list"   \<comment> \<open>the array \<^verbatim>\<open>errors\<close>\<close>
  calls :: "call list"

text \<open>
  The inner loop over the validators of field \<open>k\<close>, \<open>err\<close> being the object \<^verbatim>\<open>err\<close>.
  What a validator throws is caught and its message stored under \<open>k\<close>; when reading
  the message throws, the loop ends there and the exception leaves \<^verbatim>\<open>errors()\<close>.
\<close>

fun forEach_validator ::
  "string \<Rightarrow> jsval \<Rightarrow> validator list \<Rightarrow> nat \<Rightarrow> object \<Rightarrow> call list
     \<Rightarrow> propagated + object \<times> call list" where
  "forEach_validator k v [] i err log = Inr (err, log)"
| "forEach_validator k v (validator # rest) i err log =
     (case validator v of
        None \<Rightarrow> forEach_validator k v rest (Suc i) err (log @ [(k, i, v)])
      | Some e \<Rightarrow>
          (case handler_message e of
             Inl p \<Rightarrow> Inl p
           | Inr x \<Rightarrow> forEach_validator k v rest (Suc i) (assign err k x) (log @ [(k, i, v)])))"

text \<open>
  The body of the outer loop for one field. The last test, \<^verbatim>\<open>if (err[k])\<close>, is a
  truthiness test of a property read: it holds for a non-empty message stored under
  \<open>k\<close>, and also for an \<^verbatim>\<open>err\<close> without own \<open>k\<close> when \<^verbatim>\<open>Object.prototype\<close> has \<open>k\<close>.
\<close>

definition check_field ::
  "object \<Rightarrow> progress \<Rightarrow> string \<times> field_descriptor \<Rightarrow> propagated + progress" where
  "check_field provided st kf =
     (let k = fst kf; f = snd kf; v = property provided k in
      case (if \<not> truthy v \<and> required f
            then Inr (assign Map.empty k (Str ''missing''), calls st)
            else forEach_validator k v (validators f) 0 Map.empty (calls st)) of
        Inl p \<Rightarrow> Inl p
      | Inr (err, log) \<Rightarrow>
          Inr \<lparr>pushed = (if truthy (property err k) then pushed st @ [err] else pushed st),
               calls = log\<rparr>)"

text \<open>The outer loop, over the fields in the order of the table.\<close>

fun forEach_field ::
  "object \<Rightarrow> (string \<times> field_descriptor) list \<Rightarrow> progress \<Rightarrow> propagated + progress" where
  "forEach_field provided [] st = Inr st"
| "forEach_field provided (kf # rest) st =
     (case check_field provided st kf of
        Inl p \<Rightarrow> Inl p
      | Inr st' \<Rightarrow> forEach_field provided rest st')"

definition run :: "model \<Rightarrow> propagated + progress" where
  "run m = forEach_field (data m) (fields' m) \<lparr>pushed = [], calls = []\<rparr>"

text \<open>\<^verbatim>\<open>errors()\<close>: the list it returns, or the exception that leaves it.\<close>

definition errors :: "model \<Rightarrow> propagated + entry list" where
  "errors m = (case run m of Inl p \<Rightarrow> Inl p | Inr st \<Rightarrow> Inr (pushed st))"

subsection \<open>The declared models\<close>

definition version_regex :: regex where
  \<comment> \<open>\<^verbatim>\<open>/v?\d+\.\d+\.d+/\<close>\<close>
  "version_regex =
     \<lparr>from_start = False,
      body = Seq [Maybe (Chr CHR ''v''), Some1 (Class (Among digits)), Chr CHR ''.'',
                  Some1 (Class (Among digits)), Chr CHR ''.'', Some1 (Chr CHR ''d'')],
      to_end = False\<rparr>"

definition Assertion :: "engine \<Rightarrow> (string \<times> field_descriptor) list" where
  "Assertion E =
     [(''recipient'', required_field [Email]),
      (''evidence'', optional_field [URL]),
      (''expires'', optional_field [ISODate E]),
      (''issued_at'', optional_field [ISODate E])]"

definition Badge :: "engine \<Rightarrow> (string \<times> field_descriptor) list" where
  "Badge E =
     [(''version'', required_field [RegEx version_regex]),
      (''name'', required_field [MaxLength E 128]),
      (''description'', required_field [MaxLength E 128]),
      (''image'', required_field [URL]),
      (''criteria'', required_field [URL])]"

definition Issuer :: "engine \<Rightarrow> (string \<times> field_descriptor) list" where
  "Issuer E =
     [(''name'', required_field [MaxLength E 128]),
      (''org'', optional_field [MaxLength E 128]),
      (''contact'', optional_field [Email]),
      (''url'', optional_field [URL])]"

section \<open>The exported entry point\<close>

record result =
  status :: string
  error :: "entry list"

definition validate :: "'a \<Rightarrow> result" where
  "validate assertion = \<lparr>status = ''okay'', error = []\<rparr>"

section \<open>Notions the statements use\<close>

text \<open>The exceptions the validators of a list throw on \<open>v\<close>, in the order of the list.\<close>

definition thrown :: "validator list \<Rightarrow> jsval \<Rightarrow> exn list" where
  "thrown vs v = List.map_filter (\<lambda>validator. validator v) vs"

text \<open>The thrown values whose message the handler can read.\<close>

definition catchable :: "exn \<Rightarrow> bool" where
  "catchable e = (e \<noteq> Thrown Undefined \<and> e \<noteq> Thrown Null)"

text \<open>
  The fields whose check ends: the required field that is missing, and the field none
  of whose validators throws \<^verbatim>\<open>undefined\<close> or \<^verbatim>\<open>null\<close>.
\<close>

definition field_returns :: "object \<Rightarrow> string \<times> field_descriptor \<Rightarrow> bool" where
  "field_returns provided kf =
     (let v = property provided (fst kf) in
      (\<not> truthy v \<and> required (snd kf)) \<or> list_all catchable (thrown (validators (snd kf)) v))"

text \<open>What the handler stores for a thrown value whose message it can read.\<close>

fun stored :: "exn \<Rightarrow> jsval" where
  "stored (ValidationError type) = Str type"
| "stored (TypeError text) = Str text"
| "stored (Thrown v) = Undefined"

text \<open>The object \<^verbatim>\<open>err\<close> of a field at the end of its check, when the check ends.\<close>

definition field_err :: "object \<Rightarrow> string \<times> field_descriptor \<Rightarrow> object" where
  "field_err provided kf =
     (let v = property provided (fst kf) in
      if \<not> truthy v \<and> required (snd kf) then assign Map.empty (fst kf) (Str ''missing'')
      else let es = thrown (validators (snd kf)) v in
           if es = [] then Map.empty
           else assign Map.empty (fst kf) (stored (last es)))"

text \<open>What one field adds to the returned list, and to the log of calls.\<close>

definition field_entries :: "object \<Rightarrow> string \<times> field_descriptor \<Rightarrow> entry list" where
  "field_entries provided kf =
     (if truthy (property (field_err provided kf) (fst kf)) then [field_err provided kf]
      else [])"

definition field_calls :: "object \<Rightarrow> string \<times> field_descriptor \<Rightarrow> call list" where
  "field_calls provided kf =
     (let v = property provided (fst kf) in
      if \<not> truthy v \<and> required (snd kf) then []
      else map (\<lambda>i. (fst kf, i, v)) [0..<length (validators (snd kf))])"

text \<open>A validator that throws \<open>e\<close> on every input: \<^verbatim>\<open>function(input) { throw e }\<close>.\<close>

definition throwing :: "exn \<Rightarrow> validator" where
  "throwing e input = Some e"

text \<open>The words a pattern matches, and the repetition of a set of words.\<close>

inductive_set rep :: "string set \<Rightarrow> string set" for A :: "string set" where
  rep_nil: "[] \<in> rep A"
| rep_app: "u \<in> A \<Longrightarrow> v \<in> rep A \<Longrightarrow> u @ v \<in> rep A"

fun lang :: "rx \<Rightarrow> string set" where
  "lang Never = {}"
| "lang Empty = {[]}"
| "lang (Class cs) = {[c] | c. in_cset cs c}"
| "lang (Or r s) = lang r \<union> lang s"
| "lang (Then r s) = {u @ v | u v. u \<in> lang r \<and> v \<in> lang s}"
| "lang (Many r) = rep (lang r)"

text \<open>
  An engine to evaluate the models on, for the instances below, none of which parses a
  date: its \<^verbatim>\<open>TypeError\<close> has the text V8 gives it, and its \<^verbatim>\<open>Date.parse\<close> is NaN
  throughout.
\<close>

definition sample_engine :: engine where
  "sample_engine =
     \<lparr>date_parse = (\<lambda>s. None),
      type_error_message = (\<lambda>v. ''Cannot read property 'length' of '' @ ToString v)\<rparr>"

section \<open>Evaluation of the patterns\<close>

lemmas pattern_defs =
  test_def Seq_def Lit_def Chr_def Maybe_def Some1_def whitespace_def line_terminators_def
  lower_def digits_def atext_def alnum_def alnum_hyphen_def label_def
  email_regex_def fq_url_def local_url_def version_regex_def

lemma fq_url_undefined: "\<not> test fq_url ''undefined''"
  by (simp add: pattern_defs)

lemma local_url_undefined: "\<not> test local_url ''undefined''"
  by (simp add: pattern_defs)

lemma email_undefined: "\<not> test email_regex ''undefined''"
  by (simp add: pattern_defs)

lemma URL_Undefined: "URL Undefined = Some (ValidationError ''regexp'')"
  by (simp add: URL_def RegEx_def fq_url_undefined local_url_undefined)

lemma Email_Undefined: "Email Undefined = Some (ValidationError ''regexp'')"
  by (simp add: Email_def RegEx_def email_undefined)

lemma Email_example: "Email (Str ''b@example.com'') = None"
  by (simp add: Email_def RegEx_def pattern_defs)

section \<open>The URL validator\<close>


section \<open>The evaluation procedure, field by field\<close>

lemma thrown_Nil: "thrown [] v = []"
  by (simp add: thrown_def map_filter_simps)

lemma thrown_Cons:
  "thrown (f # vs) v = (case f v of None \<Rightarrow> thrown vs v | Some e \<Rightarrow> e # thrown vs v)"
  by (simp add: thrown_def map_filter_simps split: option.split)

lemma handler_message_catchable:
  "catchable e \<Longrightarrow>
   handler_message e = Inr (stored e)"
  by (cases e rule: handler_message.cases) (simp_all add: catchable_def)

lemma handler_message_not_catchable:
  "\<not> catchable e \<Longrightarrow> handler_message e = Inl (Cannot_read_message e)"
  by (auto simp: catchable_def)

lemma assign_twice: "assign (assign obj k x) k y = assign obj k y"
  by (simp add: assign_def)

lemma forEach_validator_returns:
  "list_all catchable (thrown vs v) \<Longrightarrow>
   forEach_validator k v vs i err log =
     Inr (if thrown vs v = [] then err
          else assign err k (stored (last (thrown vs v))),
          log @ map (\<lambda>j. (k, j, v)) [i..<i + length vs])"
proof (induction vs arbitrary: i err log)
  case Nil
  then show ?case by (simp add: thrown_Nil)
next
  case (Cons f vs)
  have upt: "[i..<i + length (f # vs)] = i # [Suc i..<Suc i + length vs]"
    by (simp add: upt_rec)
  show ?case
  proof (cases "f v")
    case None
    then show ?thesis using Cons upt by (simp add: thrown_Cons)
  next
    case (Some e)
    then have "catchable e" and rest: "list_all catchable (thrown vs v)"
      using Cons.prems by (simp_all add: thrown_Cons)
    then show ?thesis
      using Some upt Cons.IH [OF rest]
      by (simp add: thrown_Cons handler_message_catchable assign_twice)
  qed
qed

lemma forEach_validator_propagates:
  "\<not> list_all catchable (thrown vs v) \<Longrightarrow>
   \<exists>e. e \<in> set (thrown vs v) \<and> \<not> catchable e
       \<and> forEach_validator k v vs i err log = Inl (Cannot_read_message e)"
proof (induction vs arbitrary: i err log)
  case Nil
  then show ?case by (simp add: thrown_Nil)
next
  case (Cons f vs)
  show ?case
  proof (cases "f v")
    case None
    then show ?thesis using Cons by (simp add: thrown_Cons)
  next
    case (Some e)
    show ?thesis
    proof (cases "catchable e")
      case True
      then have "\<not> list_all catchable (thrown vs v)"
        using Cons.prems Some by (simp add: thrown_Cons)
      from Cons.IH [OF this, of "Suc i" "assign err k (stored e)" "log @ [(k, i, v)]"]
      show ?thesis
        using Some True by (auto simp: thrown_Cons handler_message_catchable)
    next
      case False
      then show ?thesis
        using Some by (auto simp: thrown_Cons handler_message_not_catchable)
    qed
  qed
qed

lemma check_field_returns:
  "field_returns p kf \<Longrightarrow>
   check_field p st kf =
     Inr \<lparr>pushed = pushed st @ field_entries p kf, calls = calls st @ field_calls p kf\<rparr>"
  by (auto simp: check_field_def field_returns_def field_entries_def field_err_def
      field_calls_def forEach_validator_returns Let_def)

lemma check_field_propagates:
  "\<not> field_returns p kf \<Longrightarrow> \<exists>q. check_field p st kf = Inl q"
proof -
  assume "\<not> field_returns p kf"
  then have branch: "\<not> (\<not> truthy (property p (fst kf)) \<and> required (snd kf))"
    and "\<not> list_all catchable (thrown (validators (snd kf)) (property p (fst kf)))"
    by (simp_all add: field_returns_def Let_def)
  from forEach_validator_propagates [OF this(2), of "fst kf" 0 Map.empty "calls st"]
  show ?thesis using branch by (auto simp: check_field_def Let_def)
qed

lemma forEach_field_returns:
  "list_all (field_returns p) fs \<Longrightarrow>
   forEach_field p fs st =
     Inr \<lparr>pushed = pushed st @ concat (map (field_entries p) fs),
          calls = calls st @ concat (map (field_calls p) fs)\<rparr>"
  by (induction fs arbitrary: st) (simp_all add: check_field_returns)

lemma forEach_field_propagates:
  "\<not> list_all (field_returns p) fs \<Longrightarrow> \<exists>q. forEach_field p fs st = Inl q"
proof (induction fs arbitrary: st)
  case Nil
  then show ?case by simp
next
  case (Cons kf fs)
  show ?case
  proof (cases "field_returns p kf")
    case True
    then show ?thesis using Cons by (simp add: check_field_returns)
  next
    case False
    then show ?thesis using check_field_propagates [of p kf st] by auto
  qed
qed

lemma run_returns_iff:
  "(run m = Inr st) =
     (list_all (field_returns (data m)) (fields' m)
      \<and> st = \<lparr>pushed = concat (map (field_entries (data m)) (fields' m)),
               calls = concat (map (field_calls (data m)) (fields' m))\<rparr>)"
proof (cases "list_all (field_returns (data m)) (fields' m)")
  case True
  then show ?thesis by (auto simp: run_def forEach_field_returns)
next
  case False
  then show ?thesis
    using forEach_field_propagates [OF False, of "\<lparr>pushed = [], calls = []\<rparr>"]
    by (auto simp: run_def)
qed


lemma errors_of_run: "run m = Inr st \<Longrightarrow> errors m = Inr (pushed st)"
  by (simp add: errors_def)


lemma inherited_truthy: "Object_prototype k = Some x \<Longrightarrow> truthy x"
  by (auto simp: Object_prototype_def split: if_splits)

lemma proto_inherited: "Object_prototype ''__proto__'' = Some (Obj ''[object Object]'' None)"
  by (simp add: Object_prototype_def)

lemma truthy_property_empty: "truthy (property Map.empty k) = (k \<in> dom Object_prototype)"
  by (auto simp: property_def dest: inherited_truthy split: option.split)

lemma property_assign:
  "k \<noteq> ''__proto__'' \<Longrightarrow> property (assign Map.empty k x) k = x"
  by (simp add: assign_def property_def)

lemma assign_proto: "assign obj ''__proto__'' x = obj"
  by (simp add: assign_def)

lemma truthy_stored: "truthy (stored e) = (message e \<noteq> [])"
  by (cases e) simp_all

lemma stored_message: "message e \<noteq> [] \<Longrightarrow> stored e = Str (message e)"
  by (cases e) simp_all

lemma field_entries_missing:
  "\<not> truthy (property p k) \<Longrightarrow> required f \<Longrightarrow> k \<noteq> ''__proto__'' \<Longrightarrow>
   field_entries p (k, f) = [[k \<mapsto> Str ''missing'']]"
  by (simp add: field_entries_def field_err_def property_assign) (simp add: assign_def)

lemma field_entries_checked:
  "truthy (property p k) \<or> \<not> required f \<Longrightarrow>
   field_entries p (k, f) =
     (let es = thrown (validators f) (property p k) in
      if es = [] then (if k \<in> dom Object_prototype then [Map.empty] else [])
      else if k = ''__proto__'' then [Map.empty]
      else if message (last es) = [] then []
      else [[k \<mapsto> Str (message (last es))]])"
proof -
  assume "truthy (property p k) \<or> \<not> required f"
  then have branch: "\<not> (\<not> truthy (property p k) \<and> required f)"
    by auto
  have err: "field_err p (k, f) =
     (if thrown (validators f) (property p k) = [] then Map.empty
      else assign Map.empty k (stored (last (thrown (validators f) (property p k)))))"
    using branch by (auto simp: field_err_def Let_def)
  show ?thesis
  proof (cases "thrown (validators f) (property p k) = []")
    case True
    then show ?thesis
      by (simp add: field_entries_def err truthy_property_empty)
  next
    case False
    show ?thesis
    proof (cases "k = ''__proto__''")
      case True
      have "field_err p (k, f) = Map.empty"
        unfolding err using False True by (simp add: assign_proto)
      moreover have "k \<in> dom Object_prototype"
        using True proto_inherited by auto
      ultimately show ?thesis
        using False True by (simp add: field_entries_def truthy_property_empty)
    next
      case not_proto: False
      then have "field_entries p (k, f) =
        (if message (last (thrown (validators f) (property p k))) = [] then []
         else [[k \<mapsto> stored (last (thrown (validators f) (property p k)))]])"
        using False
        by (simp add: field_entries_def err property_assign truthy_stored) (simp add: assign_def)
      then show ?thesis
        using False not_proto by (simp add: stored_message)
    qed
  qed
qed

lemma field_calls_missing:
  "\<not> truthy (property p k) \<Longrightarrow> required f \<Longrightarrow> field_calls p (k, f) = []"
  by (simp add: field_calls_def)


lemma field_err_dom: "dom (field_err p kf) \<subseteq> {fst kf}"
  by (auto simp: field_err_def Let_def assign_def split: if_splits)

lemma field_entries_own: "e \<in> set (field_entries p kf) \<Longrightarrow> e k \<noteq> None \<Longrightarrow> fst kf = k"
  using field_err_dom [of p kf] by (auto simp: field_entries_def split: if_splits)

lemma fst_field_calls: "c \<in> set (field_calls p kf) \<Longrightarrow> fst c = fst kf"
  by (auto simp: field_calls_def Let_def split: if_splits)

lemma filter_field:
  assumes "\<And>x kf. x \<in> set (g kf) \<Longrightarrow> P x \<Longrightarrow> fst kf = k"
    and "distinct (map fst fs)" and "(k, f) \<in> set fs"
  shows "filter P (concat (map g fs)) = filter P (g (k, f))"
  using assms(2,3)
proof (induction fs)
  case Nil
  then show ?case by simp
next
  case (Cons a fs)
  show ?case
  proof (cases "a = (k, f)")
    case True
    have "k \<notin> fst ` set fs" using Cons.prems(1) True by simp
    have "\<not> P x" if "x \<in> set (concat (map g fs))" for x
    proof
      assume "P x"
      from that obtain kf where "kf \<in> set fs" and "x \<in> set (g kf)"
        by auto
      then show False
        using assms(1) [of x kf] \<open>P x\<close> \<open>k \<notin> fst ` set fs\<close> by force
    qed
    then have "filter P (concat (map g fs)) = []"
      by (simp add: filter_empty_conv)
    then show ?thesis using True by simp
  next
    case False
    then have in_rest: "(k, f) \<in> set fs" using Cons.prems(2) by simp
    then have "fst a \<noteq> k" using Cons.prems(1) by (force simp: image_iff)
    then have "filter P (g a) = []"
      using assms(1) [of _ a] by (auto simp: filter_empty_conv)
    then show ?thesis using Cons.IH in_rest Cons.prems(1) by simp
  qed
qed

lemma entries_of_field:
  assumes "distinct (map fst (fields' m))" and "(k, f) \<in> set (fields' m)" and "run m = Inr st"
  shows "filter (\<lambda>e. e k \<noteq> None) (pushed st)
           = filter (\<lambda>e. e k \<noteq> None) (field_entries (data m) (k, f))"
proof -
  have "pushed st = concat (map (field_entries (data m)) (fields' m))"
    using assms(3) by (simp add: run_returns_iff)
  then show ?thesis
    using filter_field [of "field_entries (data m)" "\<lambda>e. e k \<noteq> None" k "fields' m" f]
      assms(1,2) field_entries_own by auto
qed

lemma calls_of_field:
  assumes "distinct (map fst (fields' m))" and "(k, f) \<in> set (fields' m)" and "run m = Inr st"
  shows "filter (\<lambda>c. fst c = k) (calls st) = field_calls (data m) (k, f)"
proof -
  have "calls st = concat (map (field_calls (data m)) (fields' m))"
    using assms(3) by (simp add: run_returns_iff)
  moreover have "filter (\<lambda>c. fst c = k) (field_calls (data m) (k, f)) = field_calls (data m) (k, f)"
    by (auto simp: filter_id_conv dest: fst_field_calls)
  ultimately show ?thesis
    using filter_field [of "field_calls (data m)" "\<lambda>c. fst c = k" k "fields' m" f]
      assms(1,2) fst_field_calls by auto
qed

lemma falsy_values: "(\<not> truthy v) = (v \<in> {Undefined, Null, Bool False, Num 0, Str []})"
  by (cases v) auto

section \<open>The declared models on some records\<close>



lemma MaxLength_Undefined:
  "MaxLength E len Undefined = Some (TypeError (type_error_message E Undefined))"
  by (simp add: MaxLength_def)


lemma ISODate_Undefined:
  "ISODate E Undefined =
     (case date_parse E ''undefined'' of None \<Rightarrow> Some (ValidationError ''isodate'') | Some t \<Rightarrow> None)"
  by (simp add: ISODate_def)

lemmas model_defs =
  new_model_def Assertion_def Badge_def Issuer_def required_field_def optional_field_def
  field_def

lemmas run_defs =
  errors_def run_def check_field_def property_def assign_def Object_prototype_def Let_def
  throwing_def

lemma Assertion_recipient:
  "errors (new_model (Assertion E) (Some [''recipient'' \<mapsto> Str ''b@example.com'']))
     = Inr ([[''evidence'' \<mapsto> Str ''regexp'']]
       @ (case date_parse E ''undefined'' of
            None \<Rightarrow> [[''expires'' \<mapsto> Str ''isodate''], [''issued_at'' \<mapsto> Str ''isodate'']]
          | Some t \<Rightarrow> []))"
  by (simp add: model_defs run_defs Email_example URL_Undefined ISODate_Undefined
      split: option.split)

lemma Assertion_empty:
  "errors (new_model (Assertion E) (Some Map.empty))
     = Inr ([[''recipient'' \<mapsto> Str ''missing''], [''evidence'' \<mapsto> Str ''regexp'']]
       @ (case date_parse E ''undefined'' of
            None \<Rightarrow> [[''expires'' \<mapsto> Str ''isodate''], [''issued_at'' \<mapsto> Str ''isodate'']]
          | Some t \<Rightarrow> []))"
  by (simp add: model_defs run_defs URL_Undefined ISODate_Undefined split: option.split)

lemma Badge_empty:
  "errors (new_model (Badge E) (Some Map.empty))
     = Inr [[''version'' \<mapsto> Str ''missing''], [''name'' \<mapsto> Str ''missing''],
            [''description'' \<mapsto> Str ''missing''], [''image'' \<mapsto> Str ''missing''],
            [''criteria'' \<mapsto> Str ''missing'']]"
  by (simp add: model_defs run_defs)

lemma Issuer_empty:
  "errors (new_model (Issuer E) (Some Map.empty))
     = Inr ([[''name'' \<mapsto> Str ''missing'']]
       @ (if type_error_message E Undefined = [] then []
          else [[''org'' \<mapsto> Str (type_error_message E Undefined)]])
       @ [[''contact'' \<mapsto> Str ''regexp''], [''url'' \<mapsto> Str ''regexp'']])"
  by (simp add: model_defs run_defs URL_Undefined Email_Undefined MaxLength_Undefined)



section \<open>The exported entry point is a stub\<close>

text \<open>
  C1. \<open>validate\<close> is a constant function: whatever it is given, the result is
  \<^verbatim>\<open>{status: "okay", error: []}\<close>. It does not evaluate a model: it reports no error for
  the record without fields, on which the Assertion model returns a list that is not
  empty.
\<close>

theorem validate_constant:
  "validate assertion = \<lparr>status = ''okay'', error = []\<rparr>
   \<and> error (validate (None :: (string \<rightharpoonup> jsval) option)) = []
   \<and> (\<exists>e es. errors (new_model (Assertion E) None) = Inr (e # es))"
proof -
  have "errors (new_model (Assertion E) None) = errors (new_model (Assertion E) (Some Map.empty))"
    by (simp add: new_model_def)
  then have "\<exists>e es. errors (new_model (Assertion E) None) = Inr (e # es)"
    by (simp add: Assertion_empty)
  then show ?thesis
    by (simp add: validate_def)
qed

section \<open>Optional fields that the record does not have\<close>

text \<open>
  C2. On the record \<^verbatim>\<open>{recipient: "b@example.com"}\<close> the Assertion model does not return
  the empty list: the validators of the three optional fields run on \<^verbatim>\<open>undefined\<close>.
  \<open>URL\<close> rejects the string \<^verbatim>\<open>undefined\<close>, and so does \<open>ISODate\<close> on every engine whose
  \<^verbatim>\<open>Date.parse\<close> gives NaN for it.
\<close>

theorem Assertion_recipient_only:
  "errors (new_model (Assertion E) (Some [''recipient'' \<mapsto> Str ''b@example.com'']))
     = Inr ([[''evidence'' \<mapsto> Str ''regexp'']]
       @ (case date_parse E ''undefined'' of
            None \<Rightarrow> [[''expires'' \<mapsto> Str ''isodate''], [''issued_at'' \<mapsto> Str ''isodate'']]
          | Some t \<Rightarrow> []))"
  by (rule Assertion_recipient)

text \<open>
  C3. On the empty record the Badge model returns one \<open>missing\<close> entry for each of its
  five required fields. The Assertion and Issuer models return the \<open>missing\<close> entry of
  their required field and, after it, entries for their optional fields.
\<close>

theorem empty_record_errors:
  "errors (new_model (Badge E) (Some Map.empty))
     = Inr [[''version'' \<mapsto> Str ''missing''], [''name'' \<mapsto> Str ''missing''],
            [''description'' \<mapsto> Str ''missing''], [''image'' \<mapsto> Str ''missing''],
            [''criteria'' \<mapsto> Str ''missing'']]
   \<and> errors (new_model (Assertion E) (Some Map.empty))
     = Inr ([[''recipient'' \<mapsto> Str ''missing''], [''evidence'' \<mapsto> Str ''regexp'']]
       @ (case date_parse E ''undefined'' of
            None \<Rightarrow> [[''expires'' \<mapsto> Str ''isodate''], [''issued_at'' \<mapsto> Str ''isodate'']]
          | Some t \<Rightarrow> []))
   \<and> errors (new_model (Issuer E) (Some Map.empty))
     = Inr ([[''name'' \<mapsto> Str ''missing'']]
       @ (if type_error_message E Undefined = [] then []
          else [[''org'' \<mapsto> Str (type_error_message E Undefined)]])
       @ [[''contact'' \<mapsto> Str ''regexp''], [''url'' \<mapsto> Str ''regexp'']])"
  using Badge_empty Assertion_empty Issuer_empty by blast

section \<open>Required and optional fields\<close>

text \<open>
  C4 does not hold as stated: a key the record does not have reads as the inherited
  function when \<^verbatim>\<open>Object.prototype\<close> has a property of that name, and that is truthy.
  The required field \<^verbatim>\<open>toString\<close> is not reported missing on the empty record, and its
  validator is called.
\<close>

theorem required_absent_not_missing:
  "property Map.empty ''toString'' = Obj ''function toString() { [native code] }'' (Some 0)
   \<and> run (new_model [(''toString'', required_field [Email])] (Some Map.empty))
     = Inr \<lparr>pushed = [[''toString'' \<mapsto> Str ''regexp'']],
            calls = [(''toString'', 0, Obj ''function toString() { [native code] }'' (Some 0))]\<rparr>
   \<and> errors (new_model [(''toString'', required_field [Email])] (Some Map.empty))
     = Inr [[''toString'' \<mapsto> Str ''regexp'']]"
proof -
  have "\<not> test email_regex ''function toString() { [native code] }''"
    by (simp add: pattern_defs)
  then have "Email (Obj ''function toString() { [native code] }'' (Some 0))
      = Some (ValidationError ''regexp'')"
    by (simp add: Email_def RegEx_def)
  then show ?thesis
    by (simp add: model_defs run_defs)
qed

text \<open>
  C4, as amended. In every model whose field names are distinct, on every record on
  which \<open>errors\<close> returns, a required field other than \<^verbatim>\<open>__proto__\<close> whose value, as
  \<^verbatim>\<open>provided[k]\<close> reads it, is falsy gets exactly one entry, of kind \<open>missing\<close>, and none
  of its validators is called. The falsy values are \<^verbatim>\<open>undefined\<close>, \<^verbatim>\<open>null\<close>, \<^verbatim>\<open>false\<close>, zero
  and the empty string; a key the record does not have reads as falsy unless
  \<^verbatim>\<open>Object.prototype\<close> has a property of that name.
\<close>

theorem required_falsy_is_missing:
  assumes "distinct (map fst (fields' m))" and "(k, f) \<in> set (fields' m)"
    and "required f" and "\<not> truthy (property (data m) k)"
    and "k \<noteq> ''__proto__''" and "run m = Inr st"
  shows "errors m = Inr (pushed st)
       \<and> filter (\<lambda>e. e k \<noteq> None) (pushed st) = [[k \<mapsto> Str ''missing'']]
       \<and> filter (\<lambda>c. fst c = k) (calls st) = []
       \<and> (\<not> truthy v) = (v \<in> {Undefined, Null, Bool False, Num 0, Str []})
       \<and> (provided j = None \<longrightarrow> truthy (property provided j) = (j \<in> dom Object_prototype))"
proof -
  have "field_entries (data m) (k, f) = [[k \<mapsto> Str ''missing'']]"
    using assms(3,4,5) by (simp add: field_entries_missing)
  then have entry: "filter (\<lambda>e. e k \<noteq> None) (pushed st) = [[k \<mapsto> Str ''missing'']]"
    using entries_of_field [OF assms(1,2,6)] by simp
  have calls: "filter (\<lambda>c. fst c = k) (calls st) = []"
    using calls_of_field [OF assms(1,2,6)] assms(3,4) by (simp add: field_calls_missing)
  have absent: "truthy (property provided j) = (j \<in> dom Object_prototype)"
    if "provided j = None"
    using that by (auto simp: property_def dest: inherited_truthy split: option.split)
  show ?thesis
    using entry calls absent falsy_values [of v] errors_of_run [OF assms(6)] by blast
qed

theorem required_falsy_is_missing_witness:
  "run (new_model (Badge sample_engine) (Some [''name'' \<mapsto> Num 0]))
     = Inr \<lparr>pushed = [[''version'' \<mapsto> Str ''missing''], [''name'' \<mapsto> Str ''missing''],
                      [''description'' \<mapsto> Str ''missing''], [''image'' \<mapsto> Str ''missing''],
                      [''criteria'' \<mapsto> Str ''missing'']],
            calls = []\<rparr>
   \<and> property (data (new_model (Badge sample_engine) (Some [''name'' \<mapsto> Num 0]))) ''name'' = Num 0
   \<and> filter (\<lambda>e. e ''name'' \<noteq> None)
        [[''version'' \<mapsto> Str ''missing''], [''name'' \<mapsto> Str ''missing''],
         [''description'' \<mapsto> Str ''missing''], [''image'' \<mapsto> Str ''missing''],
         [''criteria'' \<mapsto> Str ''missing'']]
       = [[''name'' \<mapsto> Str ''missing'']]"
proof -
  have run: "run (new_model (Badge sample_engine) (Some [''name'' \<mapsto> Num 0]))
     = Inr \<lparr>pushed = [[''version'' \<mapsto> Str ''missing''], [''name'' \<mapsto> Str ''missing''],
                      [''description'' \<mapsto> Str ''missing''], [''image'' \<mapsto> Str ''missing''],
                      [''criteria'' \<mapsto> Str ''missing'']],
            calls = []\<rparr>"
    by (simp add: model_defs run_defs)
  show ?thesis
    using run required_falsy_is_missing
      [of "new_model (Badge sample_engine) (Some [''name'' \<mapsto> Num 0])" "''name''"
          "required_field [MaxLength sample_engine 128]"
          "\<lparr>pushed = [[''version'' \<mapsto> Str ''missing''], [''name'' \<mapsto> Str ''missing''],
                      [''description'' \<mapsto> Str ''missing''], [''image'' \<mapsto> Str ''missing''],
                      [''criteria'' \<mapsto> Str ''missing'']],
            calls = []\<rparr>"]
    by (simp add: model_defs property_def Object_prototype_def)
qed



section \<open>The last failure of a field is the one reported\<close>



section \<open>The shape of the returned list\<close>

lemma field_entries_length: "length (field_entries p kf) \<le> 1"
  by (simp add: field_entries_def)

lemma field_entries_shape:
  assumes "e \<in> set (field_entries p kf)"
  shows "e = Map.empty \<or> (\<exists>kind. kind \<noteq> [] \<and> e = [fst kf \<mapsto> Str kind])"
proof (cases "\<not> truthy (property p (fst kf)) \<and> required (snd kf)")
  case True
  show ?thesis
  proof (cases "fst kf = ''__proto__''")
    case True
    then show ?thesis
      using assms \<open>\<not> truthy (property p (fst kf)) \<and> required (snd kf)\<close>
      by (simp add: field_entries_def field_err_def assign_proto split: if_splits)
  next
    case False
    then have "field_entries p kf = [[fst kf \<mapsto> Str ''missing'']]"
      using True field_entries_missing [of p "fst kf" "snd kf"] by simp
    then show ?thesis using assms by auto
  qed
next
  case False
  then have "truthy (property p (fst kf)) \<or> \<not> required (snd kf)"
    by auto
  from field_entries_checked [OF this] show ?thesis
    using assms by (auto simp: Let_def split: if_splits)
qed

lemma keyed_once:
  assumes "distinct (map fst (fields' m))" and "run m = Inr st"
  shows "length (filter (\<lambda>e. e k \<noteq> None) (pushed st)) \<le> 1"
proof (cases "\<exists>f. (k, f) \<in> set (fields' m)")
  case True
  then obtain f where "(k, f) \<in> set (fields' m)" by blast
  from entries_of_field [OF assms(1) this assms(2)] show ?thesis
    using field_entries_length [of "data m" "(k, f)"]
    by (metis (no_types, lifting) length_filter_le le_trans)
next
  case False
  have "pushed st = concat (map (field_entries (data m)) (fields' m))"
    using assms(2) by (simp add: run_returns_iff)
  moreover have "e k = None"
    if "e \<in> set (concat (map (field_entries (data m)) (fields' m)))" for e
  proof (rule ccontr)
    assume "e k \<noteq> None"
    from that obtain kf where "kf \<in> set (fields' m)" and "e \<in> set (field_entries (data m) kf)"
      by auto
    then show False
      using field_entries_own [of e "data m" kf k] \<open>e k \<noteq> None\<close> False
      by (metis prod.collapse)
  qed
  ultimately have "filter (\<lambda>e. e k \<noteq> None) (pushed st) = []"
    by (simp add: filter_empty_conv)
  then show ?thesis by simp
qed

text \<open>
  C7 does not hold as stated: \<^verbatim>\<open>err\<close> is a fresh \<^verbatim>\<open>{}\<close>, and \<^verbatim>\<open>err[k]\<close> is truthy without
  anything recorded when \<^verbatim>\<open>Object.prototype\<close> has a property named \<open>k\<close>. The optional
  field \<^verbatim>\<open>toString\<close>, without validators and so without failure, adds the entry \<^verbatim>\<open>{}\<close>.
\<close>

theorem empty_entry_without_failure:
  "thrown (validators (optional_field [])) (Str ''x'') = []
   \<and> errors (new_model [(''toString'', optional_field [])] (Some [''toString'' \<mapsto> Str ''x'']))
     = Inr [Map.empty]"
  by (simp add: model_defs run_defs thrown_def map_filter_simps)

text \<open>
  C7, as amended. In every model whose field names are distinct, on every record on
  which \<open>errors\<close> returns, the returned list is made of the entries of the fields in the
  order of the field table, at most one for a field; an entry is \<^verbatim>\<open>{}\<close> or maps its
  field to a kind that is not empty, and no two entries have the same field. A field
  that is not missing and on which no validator throws has no entry, unless
  \<^verbatim>\<open>Object.prototype\<close> has a property of its name: then its entry is \<^verbatim>\<open>{}\<close>.
\<close>

theorem one_entry_per_failed_field:
  assumes "distinct (map fst (fields' m))" and "run m = Inr st"
  shows "errors m = Inr (pushed st)
       \<and> pushed st = concat (map (field_entries (data m)) (fields' m))
       \<and> (\<forall>kf. length (field_entries (data m) kf) \<le> 1)
       \<and> (\<forall>kf e. e \<in> set (field_entries (data m) kf)
             \<longrightarrow> e = Map.empty \<or> (\<exists>kind. kind \<noteq> [] \<and> e = [fst kf \<mapsto> Str kind]))
       \<and> (\<forall>k. length (filter (\<lambda>e. e k \<noteq> None) (pushed st)) \<le> 1)
       \<and> (\<forall>k f. (k, f) \<in> set (fields' m)
                 \<and> (truthy (property (data m) k) \<or> \<not> required f)
                 \<and> thrown (validators f) (property (data m) k) = []
               \<longrightarrow> field_entries (data m) (k, f)
                   = (if k \<in> dom Object_prototype then [Map.empty] else []))"
proof -
  have order: "pushed st = concat (map (field_entries (data m)) (fields' m))"
    using assms(2) by (simp add: run_returns_iff)
  have quiet: "field_entries (data m) (k, f)
                   = (if k \<in> dom Object_prototype then [Map.empty] else [])"
    if "truthy (property (data m) k) \<or> \<not> required f"
      and "thrown (validators f) (property (data m) k) = []" for k f
    using that by (simp add: field_entries_checked)
  show ?thesis
    using order quiet field_entries_length field_entries_shape keyed_once [OF assms]
      errors_of_run [OF assms(2)]
    by blast
qed

theorem one_entry_per_failed_field_witness:
  "run (new_model (Issuer sample_engine)
       (Some [''name'' \<mapsto> Str ''Mozilla'', ''org'' \<mapsto> Str ''Mozilla'', ''contact'' \<mapsto> Str ''nobody'']))
     = Inr \<lparr>pushed = [[''contact'' \<mapsto> Str ''regexp''], [''url'' \<mapsto> Str ''regexp'']],
            calls = [(''name'', 0, Str ''Mozilla''), (''org'', 0, Str ''Mozilla''),
                     (''contact'', 0, Str ''nobody''), (''url'', 0, Undefined)]\<rparr>
   \<and> errors (new_model (Issuer sample_engine)
       (Some [''name'' \<mapsto> Str ''Mozilla'', ''org'' \<mapsto> Str ''Mozilla'', ''contact'' \<mapsto> Str ''nobody'']))
     = Inr [[''contact'' \<mapsto> Str ''regexp''], [''url'' \<mapsto> Str ''regexp'']]
   \<and> field_entries [''name'' \<mapsto> Str ''Mozilla'', ''org'' \<mapsto> Str ''Mozilla'', ''contact'' \<mapsto> Str ''nobody'']
        (''org'', optional_field [MaxLength sample_engine 128]) = []"
proof -
  have email: "Email (Str ''nobody'') = Some (ValidationError ''regexp'')"
    by (simp add: Email_def RegEx_def pattern_defs)
  have run: "run (new_model (Issuer sample_engine)
       (Some [''name'' \<mapsto> Str ''Mozilla'', ''org'' \<mapsto> Str ''Mozilla'', ''contact'' \<mapsto> Str ''nobody'']))
     = Inr \<lparr>pushed = [[''contact'' \<mapsto> Str ''regexp''], [''url'' \<mapsto> Str ''regexp'']],
            calls = [(''name'', 0, Str ''Mozilla''), (''org'', 0, Str ''Mozilla''),
                     (''contact'', 0, Str ''nobody''), (''url'', 0, Undefined)]\<rparr>"
    by (simp add: model_defs run_defs email URL_Undefined MaxLength_def)
  have quiet: "thrown (validators (optional_field [MaxLength sample_engine 128])) (Str ''Mozilla'') = []"
    by (simp add: model_defs thrown_def map_filter_simps MaxLength_def)
  have fresh: "''org'' \<notin> dom Object_prototype"
    by (simp add: Object_prototype_def dom_def)
  show ?thesis
    using run quiet fresh one_entry_per_failed_field
      [of "new_model (Issuer sample_engine)
       (Some [''name'' \<mapsto> Str ''Mozilla'', ''org'' \<mapsto> Str ''Mozilla'', ''contact'' \<mapsto> Str ''nobody''])"
          "\<lparr>pushed = [[''contact'' \<mapsto> Str ''regexp''], [''url'' \<mapsto> Str ''regexp'']],
            calls = [(''name'', 0, Str ''Mozilla''), (''org'', 0, Str ''Mozilla''),
                     (''contact'', 0, Str ''nobody''), (''url'', 0, Undefined)]\<rparr>"]
    by (simp add: model_defs property_def Object_prototype_def)
qed

section \<open>The matcher decides the words of the pattern\<close>

lemma nullable_iff: "nullable r = ([] \<in> lang r)"
  by (induction r) (auto intro: rep_nil)

lemma lang_alt: "lang (alt r s) = lang r \<union> lang s"
  by (cases r; cases s) simp_all

lemma lang_seq: "lang (seq r s) = lang (Then r s)"
  by (cases r; cases s) auto

lemma rep_Cons:
  assumes "x \<in> rep A" and "x = c # w"
  shows "\<exists>u v. w = u @ v \<and> c # u \<in> A \<and> v \<in> rep A"
  using assms
proof (induction arbitrary: w rule: rep.induct)
  case rep_nil
  then show ?case by simp
next
  case (rep_app u v)
  show ?case
  proof (cases u)
    case Nil
    then show ?thesis using rep_app by simp
  next
    case (Cons a u')
    then have "a = c" and "w = u' @ v" using rep_app.prems by simp_all
    then show ?thesis using rep_app.hyps(1,2) Cons by blast
  qed
qed

lemma rep_step: "c # u \<in> A \<Longrightarrow> v \<in> rep A \<Longrightarrow> c # u @ v \<in> rep A"
  using rep_app [of "c # u" A v] by simp

lemma lang_after: "lang (after c r) = {w. c # w \<in> lang r}"
proof (induction r)
  case Never
  show ?case by simp
next
  case Empty
  show ?case by simp
next
  case (Class cs)
  show ?case by auto
next
  case (Or r s)
  then show ?case by (auto simp: lang_alt)
next
  case (Then r s)
  have "{w. c # w \<in> lang (Then r s)}
      = {u @ v | u v. c # u \<in> lang r \<and> v \<in> lang s} \<union> (if [] \<in> lang r then {w. c # w \<in> lang s} else {})"
    by (auto simp: Cons_eq_append_conv)
  then show ?case using Then by (auto simp: lang_alt lang_seq nullable_iff)
next
  case (Many r)
  have "{w. c # w \<in> rep (lang r)} = {u @ v | u v. c # u \<in> lang r \<and> v \<in> rep (lang r)}"
    by (auto dest: rep_Cons intro: rep_step)
  then show ?case using Many by (auto simp: lang_seq)
qed

lemma match_here_iff:
  "match_here r e s = (\<exists>m q. s = m @ q \<and> m \<in> lang r \<and> (e \<longrightarrow> q = []))"
proof (induction s arbitrary: r)
  case Nil
  show ?case by (simp add: nullable_iff)
next
  case (Cons c cs)
  have "(\<exists>m q. c # cs = m @ q \<and> m \<in> lang r \<and> (e \<longrightarrow> q = []))
      = (([] \<in> lang r \<and> \<not> e) \<or> (\<exists>m q. cs = m @ q \<and> c # m \<in> lang r \<and> (e \<longrightarrow> q = [])))"
    by (auto simp: Cons_eq_append_conv)
  then show ?case by (auto simp: Cons.IH lang_after nullable_iff)
qed

lemma match_anywhere_iff:
  "match_anywhere r e s = (\<exists>p m q. s = p @ m @ q \<and> m \<in> lang r \<and> (e \<longrightarrow> q = []))"
proof (induction s)
  case Nil
  show ?case by (simp add: nullable_iff)
next
  case (Cons c cs)
  have "(\<exists>p m q. c # cs = p @ m @ q \<and> m \<in> lang r \<and> (e \<longrightarrow> q = []))
      = ((\<exists>m q. c # cs = m @ q \<and> m \<in> lang r \<and> (e \<longrightarrow> q = []))
         \<or> (\<exists>p m q. cs = p @ m @ q \<and> m \<in> lang r \<and> (e \<longrightarrow> q = [])))"
    (is "?L = (?A \<or> ?B)")
  proof
    assume ?L
    then obtain p m q where split: "c # cs = p @ m @ q" and m: "m \<in> lang r" and q: "e \<longrightarrow> q = []"
      by blast
    show "?A \<or> ?B"
    proof (cases p)
      case Nil
      then show ?thesis using split m q by auto
    next
      case (Cons a p')
      then have "cs = p' @ m @ q" using split by simp
      then show ?thesis using m q by blast
    qed
  next
    assume "?A \<or> ?B"
    then show ?L
    proof
      assume ?A
      then obtain m q where "c # cs = [] @ m @ q" and "m \<in> lang r" and "e \<longrightarrow> q = []"
        by auto
      then show ?L by blast
    next
      assume ?B
      then obtain p m q where "c # cs = (c # p) @ m @ q" and "m \<in> lang r" and "e \<longrightarrow> q = []"
        by auto
      then show ?L by blast
    qed
  qed
  then show ?case using Cons.IH match_here_iff [of r e "c # cs"] by simp
qed

lemma test_iff:
  "test re s = (\<exists>p m q. s = p @ m @ q \<and> m \<in> lang (body re)
                  \<and> (from_start re \<longrightarrow> p = []) \<and> (to_end re \<longrightarrow> q = []))"
proof (cases "from_start re")
  case True
  then show ?thesis by (auto simp: test_def match_here_iff)
next
  case False
  then show ?thesis by (simp add: test_def match_anywhere_iff)
qed

lemma label_needs_alnum:
  "w \<in> lang label \<Longrightarrow> \<exists>c\<in>set w. c \<in> set (lower @ digits)"
  by (auto simp: label_def alnum_def)

lemma email_needs_alnum:
  assumes "w \<in> lang (body email_regex)"
  shows "\<exists>c\<in>set w. c \<in> set (lower @ digits)"
proof -
  from assms obtain u v where "w = u @ v" and "v \<in> lang label"
    by (auto simp: email_regex_def Seq_def) (metis append.assoc)
  then show ?thesis using label_needs_alnum [of v] by auto
qed


lemma Email_needs_lowercase:
  assumes "set (ToString input) \<inter> set (lower @ digits) = {}"
  shows "Email input = Some (ValidationError ''regexp'')"
proof -
  have "\<not> test email_regex (ToString input)"
  proof
    assume "test email_regex (ToString input)"
    then obtain p m q where "ToString input = p @ m @ q" and "m \<in> lang (body email_regex)"
      by (auto simp: test_iff)
    then show False using email_needs_alnum [of m] assms by auto
  qed
  then show ?thesis by (simp add: Email_def RegEx_def)
qed

section \<open>The Email validator distinguishes case\<close>

text \<open>
  C9. The pattern of \<open>Email\<close> has no \<^verbatim>\<open>i\<close> flag, and its classes hold the lowercase letters
  only: the address that is accepted in lowercase is rejected in uppercase.
\<close>

theorem Email_uppercase_rejected:
  "Email (Str ''b@example.com'') = None
   \<and> Email (Str ''B@EXAMPLE.COM'') = Some (ValidationError ''regexp'')"
proof -
  have "set (ToString (Str ''B@EXAMPLE.COM'')) \<inter> set (lower @ digits) = {}"
    by (simp add: lower_def digits_def)
  then show ?thesis
    using Email_example Email_needs_lowercase by blast
qed

section \<open>What the loop catches, and what it lets through\<close>













end
